theory Spec2Isabelle
  imports Main "HOL-Library.List_Lexorder" "HOL-Library.Char_ord"
    "HOL-Library.Product_Lexorder" "HOL-Library.Multiset"
begin

section \<open>The database tree\<close>

text \<open>
  The backend keeps three nodes of a Firebase Realtime Database: \<^verbatim>\<open>/users/<uid>\<close>,
  \<^verbatim>\<open>/referrals/<id>\<close> and \<^verbatim>\<open>/admin/settings/referral\<close>. A JavaScript object whose
  properties may be missing is a record of options (\<open>None\<close> is \<^verbatim>\<open>undefined\<close>).
  Fields are modelled at the types the handlers write them with: codes and
  identifiers are strings, coin amounts are integers (JavaScript adds integers
  exactly up to \<open>2 ^ 53\<close> in magnitude), timestamps (\<^verbatim>\<open>Date.now()\<close>, milliseconds
  since the epoch) are naturals.
\<close>

type_synonym uid = string

record user =
  referralCode :: "string option"
  coins :: "int option"
  referredBy :: "string option"
  referralAppliedAt :: "nat option"
  updatedAt :: "nat option"
  displayName :: "string option"

text \<open>The object \<^verbatim>\<open>{}\<close> the handlers use when a snapshot does not exist.\<close>

definition emptyUser :: user where
  "emptyUser = \<lparr>referralCode = None, coins = None, referredBy = None,
                 referralAppliedAt = None, updatedAt = None, displayName = None\<rparr>"

text \<open>
  The audit record written under \<^verbatim>\<open>/referrals/<id>\<close>. Its properties
  \<^verbatim>\<open>id\<close>, \<^verbatim>\<open>referrerCoins\<close> and \<^verbatim>\<open>referredCoins\<close> are named \<open>referralId\<close>,
  \<open>referrerCoinsAwarded\<close> and \<open>referredCoinsAwarded\<close> here.
\<close>

record referral =
  referralId :: string
  referrerUid :: uid
  referredUid :: uid
  referrerCode :: string
  referredCode :: "string option"
  awarded :: bool
  referrerCoinsAwarded :: int
  referredCoinsAwarded :: int
  createdAt :: nat

text \<open>
  The node \<^verbatim>\<open>/admin/settings/referral\<close>, and also the \<^verbatim>\<open>updates\<close> object of the
  settings route. A node that does not exist reads as the record of \<open>None\<close>s, which is
  what \<^verbatim>\<open>settingsSnap.exists() ? settingsSnap.val() : {}\<close> yields.
\<close>

record settings =
  referrerCoins :: "int option"
  referredCoins :: "int option"
  requireCompleteProfile :: "bool option"

text \<open>
  The children of \<^verbatim>\<open>/users\<close> and \<^verbatim>\<open>/referrals\<close> are association lists in the
  store's key order, since \<^verbatim>\<open>limitToFirst(1)\<close> depends on it.
\<close>

record db =
  users :: "(uid \<times> user) list"
  referrals :: "(string \<times> referral) list"
  settingsReferral :: settings

subsection \<open>JavaScript truthiness\<close>

definition truthy_str :: "string option \<Rightarrow> bool" where
  "truthy_str v = (case v of None \<Rightarrow> False | Some s \<Rightarrow> s \<noteq> [])"

definition truthy_num :: "'a::zero option \<Rightarrow> bool" where
  "truthy_num v = (case v of None \<Rightarrow> False | Some n \<Rightarrow> n \<noteq> 0)"

text \<open>\<^verbatim>\<open>x || 0\<close> on an optional number.\<close>

definition or_zero :: "int option \<Rightarrow> int" where
  "or_zero v = (case v of None \<Rightarrow> 0 | Some n \<Rightarrow> n)"

subsection \<open>Store primitives\<close>

text \<open>
  \<open>upsert k d f\<close> is an update below the child \<open>k\<close>: an existing child is changed in
  place by \<open>f\<close>, a missing one is created from \<open>d\<close> at its place in key order.
\<close>

definition upsert :: "string \<Rightarrow> 'v \<Rightarrow> ('v \<Rightarrow> 'v) \<Rightarrow> (string \<times> 'v) list \<Rightarrow> (string \<times> 'v) list" where
  "upsert k d f xs =
     (if k \<in> set (map fst xs)
      then map (\<lambda>(k', v). if k' = k then (k', f v) else (k', v)) xs
      else insort_key fst (k, f d) xs)"

text \<open>
  The paths the handlers write. A multi-path \<^verbatim>\<open>update\<close> is a list of them, applied
  as one atomic change of the tree.
\<close>

datatype path_write =
    SetReferralCode uid string
  | SetReferredBy uid string
  | SetReferralAppliedAt uid nat
  | SetCoins uid int
  | SetUpdatedAt uid nat
  | SetReferral string referral
  | SetReferrerCoins int
  | SetReferredCoins int
  | SetRequireCompleteProfile bool

fun apply_write :: "path_write \<Rightarrow> db \<Rightarrow> db" where
  "apply_write (SetReferralCode u c) d =
     d\<lparr>users := upsert u emptyUser (\<lambda>r. r\<lparr>referralCode := Some c\<rparr>) (users d)\<rparr>"
| "apply_write (SetReferredBy u c) d =
     d\<lparr>users := upsert u emptyUser (\<lambda>r. r\<lparr>referredBy := Some c\<rparr>) (users d)\<rparr>"
| "apply_write (SetReferralAppliedAt u t) d =
     d\<lparr>users := upsert u emptyUser (\<lambda>r. r\<lparr>referralAppliedAt := Some t\<rparr>) (users d)\<rparr>"
| "apply_write (SetCoins u n) d =
     d\<lparr>users := upsert u emptyUser (\<lambda>r. r\<lparr>coins := Some n\<rparr>) (users d)\<rparr>"
| "apply_write (SetUpdatedAt u t) d =
     d\<lparr>users := upsert u emptyUser (\<lambda>r. r\<lparr>updatedAt := Some t\<rparr>) (users d)\<rparr>"
| "apply_write (SetReferral i r) d =
     d\<lparr>referrals := upsert i r (\<lambda>_. r) (referrals d)\<rparr>"
| "apply_write (SetReferrerCoins n) d =
     d\<lparr>settingsReferral := (settingsReferral d)\<lparr>referrerCoins := Some n\<rparr>\<rparr>"
| "apply_write (SetReferredCoins n) d =
     d\<lparr>settingsReferral := (settingsReferral d)\<lparr>referredCoins := Some n\<rparr>\<rparr>"
| "apply_write (SetRequireCompleteProfile b) d =
     d\<lparr>settingsReferral := (settingsReferral d)\<lparr>requireCompleteProfile := Some b\<rparr>\<rparr>"

definition db_update :: "path_write list \<Rightarrow> db \<Rightarrow> db" where
  "db_update ws d = fold apply_write ws d"

text \<open>\<^verbatim>\<open>db.ref(`/users/${uid}`).once('value')\<close> followed by \<^verbatim>\<open>snap.exists() ? snap.val() : {}\<close>.\<close>

definition userData :: "db \<Rightarrow> uid \<Rightarrow> user" where
  "userData d u = (case map_of (users d) u of None \<Rightarrow> emptyUser | Some r \<Rightarrow> r)"

text \<open>
  \<^verbatim>\<open>db.ref('/users').orderByChild('referralCode').equalTo(code).limitToFirst(1)\<close>:
  the first user, in the store's order, whose \<open>referralCode\<close> is the code; \<open>None\<close>
  when the snapshot does not exist.
\<close>

definition findByReferralCode :: "(uid \<times> user) list \<Rightarrow> string \<Rightarrow> (uid \<times> user) option" where
  "findByReferralCode us code = find (\<lambda>(k, u). referralCode u = Some code) us"

section \<open>Requests and responses\<close>

datatype body =
    Error string
  | ReferralCodeOf string
  | Awarded uid int int
  | Data "(string \<times> referral) list"
  | Saved settings

datatype response = Response nat body

fun status :: "response \<Rightarrow> nat" where
  "status (Response s b) = s"

text \<open>
  What a request sees besides the database: the clock, the identifier \<^verbatim>\<open>uuidv4()\<close>
  returns, the hex digest function of \<^verbatim>\<open>crypto\<close>, and the two environment defaults
  (\<open>Some n\<close> for a variable set to the numeral of \<open>n\<close>, \<open>None\<close> for one that is unset).
\<close>

record env =
  now :: nat
  uuid :: string
  sha1_hex :: "string \<Rightarrow> string"
  DEFAULT_REFERRER_COINS :: "int option"
  DEFAULT_REFERRED_COINS :: "int option"

section \<open>POST /applyReferral\<close>

text \<open>
  The body \<^verbatim>\<open>{ newUid, usedReferralCode }\<close> and the uid of the verified token. In the
  definitions below \<open>n\<close> is the validated \<^verbatim>\<open>newUid\<close>, and \<open>rUid\<close> and \<open>rUser\<close> are
  \<^verbatim>\<open>referrerUid\<close> and \<^verbatim>\<open>referrerUser\<close>.
\<close>

record applyReq =
  newUid :: "string option"
  usedReferralCode :: "string option"
  tokenUid :: uid

text \<open>The two checks made before the first read; \<open>Inr\<close> carries \<open>newUid\<close> and \<open>usedCode\<close> on.\<close>

definition applyReferral_validate :: "applyReq \<Rightarrow> response + (uid \<times> string)" where
  "applyReferral_validate req =
     (case newUid req of
        None \<Rightarrow> Inl (Response 400 (Error ''Bad newUid''))
      | Some n \<Rightarrow>
          if n = [] \<or> n \<noteq> tokenUid req then Inl (Response 400 (Error ''Bad newUid''))
          else (case usedReferralCode req of
                  None \<Rightarrow> Inl (Response 400 (Error ''Missing usedReferralCode''))
                | Some c \<Rightarrow>
                    if c = [] then Inl (Response 400 (Error ''Missing usedReferralCode''))
                    else Inr (n, c)))"

text \<open>\<^verbatim>\<open>if (newUserData.referralAppliedAt) return res.status(409)\<close>.\<close>

definition applyReferral_guard :: "user \<Rightarrow> response option" where
  "applyReferral_guard newUserData =
     (if truthy_num (referralAppliedAt newUserData)
      then Some (Response 409 (Error ''Referral already applied''))
      else None)"

text \<open>The checks on the query snapshot: it exists, and its first key is not \<open>newUid\<close>.\<close>

definition applyReferral_referrer :: "uid \<Rightarrow> (uid \<times> user) option \<Rightarrow> response + (uid \<times> user)" where
  "applyReferral_referrer n refSnap =
     (case refSnap of
        None \<Rightarrow> Inl (Response 404 (Error ''Referral code not found''))
      | Some (rUid, rUser) \<Rightarrow>
          if rUid = n then Inl (Response 400 (Error ''Cannot use your own code''))
          else Inr (rUid, rUser))"

text \<open>\<^verbatim>\<open>Number(setting || process.env.DEFAULT || fallback)\<close>.\<close>

definition resolveCoins :: "int option \<Rightarrow> int option \<Rightarrow> int \<Rightarrow> int" where
  "resolveCoins setting envDefault fallback =
     (case setting of
        Some n \<Rightarrow> if n \<noteq> 0 then n else (case envDefault of Some d \<Rightarrow> d | None \<Rightarrow> fallback)
      | None \<Rightarrow> (case envDefault of Some d \<Rightarrow> d | None \<Rightarrow> fallback))"

text \<open>
  From the settings snapshot to the \<^verbatim>\<open>updates\<close> object and the success response. The
  new balances are computed from \<open>newUserData\<close> and \<open>rUser\<close>, the values read
  earlier in the request.
\<close>

definition applyReferral_updates ::
    "env \<Rightarrow> uid \<Rightarrow> string \<Rightarrow> user \<Rightarrow> uid \<Rightarrow> user \<Rightarrow> settings \<Rightarrow> path_write list \<times> response" where
  "applyReferral_updates e n usedCode newUserData rUid rUser st =
     (let referrerAmt = resolveCoins (referrerCoins st) (DEFAULT_REFERRER_COINS e) 50;
          referredAmt = resolveCoins (referredCoins st) (DEFAULT_REFERRED_COINS e) 20;
          t = now e;
          currentReferrerCoins = or_zero (coins rUser)
      in ([SetReferredBy n usedCode,
           SetReferralAppliedAt n t,
           SetCoins n (or_zero (coins newUserData) + referredAmt),
           SetUpdatedAt n t,
           SetCoins rUid (currentReferrerCoins + referrerAmt),
           SetUpdatedAt rUid t,
           SetReferral (uuid e)
             \<lparr>referralId = uuid e, referrerUid = rUid, referredUid = n,
              referrerCode = usedCode,
              referredCode = (if truthy_str (referralCode newUserData)
                              then referralCode newUserData else None),
              awarded = True, referrerCoinsAwarded = referrerAmt,
              referredCoinsAwarded = referredAmt, createdAt = t\<rparr>],
          Response 200 (Awarded rUid referrerAmt referredAmt)))"

text \<open>
  The handler when nothing else touches the database while it runs: every read sees
  the same tree \<open>d\<close>. It returns the response and the writes it passes to
  \<^verbatim>\<open>db.ref().update\<close> (the empty list when it never calls it).
\<close>

definition applyReferral_writes :: "env \<Rightarrow> applyReq \<Rightarrow> db \<Rightarrow> response \<times> path_write list" where
  "applyReferral_writes e req d =
     (case applyReferral_validate req of
        Inl r \<Rightarrow> (r, [])
      | Inr (n, usedCode) \<Rightarrow>
          (let newUserData = userData d n in
           case applyReferral_guard newUserData of
             Some r \<Rightarrow> (r, [])
           | None \<Rightarrow>
               (case applyReferral_referrer n (findByReferralCode (users d) usedCode) of
                  Inl r \<Rightarrow> (r, [])
                | Inr (rUid, rUser) \<Rightarrow>
                    (case applyReferral_updates e n usedCode newUserData rUid rUser
                            (settingsReferral d) of
                       (updates, r) \<Rightarrow> (r, updates)))))"

definition applyReferral :: "env \<Rightarrow> applyReq \<Rightarrow> db \<Rightarrow> response \<times> db" where
  "applyReferral e req d =
     (case applyReferral_writes e req d of (r, ws) \<Rightarrow> (r, db_update ws d))"

text \<open>
  Calls served one after the other, each on the tree the previous one left; the
  number of those made for the account \<open>a\<close> that were answered 200; and the guard's
  view of an account.
\<close>

fun applyReferral_all :: "(env \<times> applyReq) list \<Rightarrow> db \<Rightarrow> response list \<times> db" where
  "applyReferral_all [] d = ([], d)"
| "applyReferral_all ((e, req) # calls) d =
     (case applyReferral e req d of
        (r, d1) \<Rightarrow> (case applyReferral_all calls d1 of (rs, d2) \<Rightarrow> (r # rs, d2)))"

definition redeemed :: "db \<Rightarrow> uid \<Rightarrow> bool" where
  "redeemed d a = truthy_num (referralAppliedAt (userData d a))"

fun successes_for :: "uid \<Rightarrow> (env \<times> applyReq) list \<Rightarrow> response list \<Rightarrow> nat" where
  "successes_for a ((e, req) # calls) (r # rs) =
     (if newUid req = Some a \<and> status r = 200 then 1 else 0) + successes_for a calls rs"
| "successes_for a calls rs = 0"

subsection \<open>The handler between its awaits\<close>

text \<open>
  The handler suspends at each \<^verbatim>\<open>await\<close>: three reads and the final update. Between
  two of them it runs alone, and other requests may run while it is suspended.
  A request in flight is the I/O it waits for, with the values it has read so far.
\<close>

datatype pending =
    ReadUser uid string
  | QueryReferrer uid string user
  | ReadSettings uid string user uid user
  | Commit "path_write list" response
  | Done response

definition applyReferral_start :: "applyReq \<Rightarrow> pending" where
  "applyReferral_start req =
     (case applyReferral_validate req of Inl r \<Rightarrow> Done r | Inr (n, usedCode) \<Rightarrow> ReadUser n usedCode)"

text \<open>One I/O against the current tree, and the code up to the next \<^verbatim>\<open>await\<close>.\<close>

fun applyReferral_step :: "env \<Rightarrow> pending \<Rightarrow> db \<Rightarrow> pending \<times> db" where
  "applyReferral_step e (ReadUser n usedCode) d =
     (let newUserData = userData d n in
      case applyReferral_guard newUserData of
        Some r \<Rightarrow> (Done r, d)
      | None \<Rightarrow> (QueryReferrer n usedCode newUserData, d))"
| "applyReferral_step e (QueryReferrer n usedCode newUserData) d =
     (case applyReferral_referrer n (findByReferralCode (users d) usedCode) of
        Inl r \<Rightarrow> (Done r, d)
      | Inr (rUid, rUser) \<Rightarrow> (ReadSettings n usedCode newUserData rUid rUser, d))"
| "applyReferral_step e (ReadSettings n usedCode newUserData rUid rUser) d =
     (case applyReferral_updates e n usedCode newUserData rUid rUser (settingsReferral d) of
        (updates, r) \<Rightarrow> (Commit updates r, d))"
| "applyReferral_step e (Commit updates r) d = (Done r, db_update updates d)"
| "applyReferral_step e (Done r) d = (Done r, d)"

text \<open>
  Requests in flight, each with its own clock value and identifier, and a schedule:
  the index of the request whose I/O completes next.
\<close>

fun interleave :: "nat list \<Rightarrow> (env \<times> pending) list \<Rightarrow> db \<Rightarrow> (env \<times> pending) list \<times> db" where
  "interleave [] ps d = (ps, d)"
| "interleave (i # sched) ps d =
     (if i < length ps
      then (case ps ! i of
              (e, p) \<Rightarrow>
                (case applyReferral_step e p d of
                   (p', d') \<Rightarrow> interleave sched (ps[i := (e, p')]) d'))
      else interleave sched ps d)"

section \<open>POST /generateReferral\<close>

fun string_of_nat :: "nat \<Rightarrow> string" where
  "string_of_nat n =
     (if n < 10 then [char_of (48 + n)]
      else string_of_nat (n div 10) @ [char_of (48 + n mod 10)])"

declare string_of_nat.simps [simp del]

text \<open>\<^verbatim>\<open>toUpperCase\<close> on ASCII letters.\<close>

definition toUpperCase :: "string \<Rightarrow> string" where
  "toUpperCase s =
     map (\<lambda>c. if CHR ''a'' \<le> c \<and> c \<le> CHR ''z'' then char_of (of_char c - (32::nat)) else c) s"

definition makeReferralCode :: "env \<Rightarrow> uid \<Rightarrow> string" where
  "makeReferralCode e u =
     toUpperCase (take 3 u) @ ''-'' @
     toUpperCase (take 6 (sha1_hex e (u @ string_of_nat (now e))))"

text \<open>The response and the writes passed to \<^verbatim>\<open>userRef.update\<close> (none when it is not called).\<close>

definition generateReferral_writes :: "env \<Rightarrow> uid \<Rightarrow> db \<Rightarrow> response \<times> path_write list" where
  "generateReferral_writes e u d =
     (let newCode = makeReferralCode e u;
          generated = (Response 200 (ReferralCodeOf newCode),
                       [SetReferralCode u newCode, SetUpdatedAt u (now e)])
      in case map_of (users d) u of
           None \<Rightarrow> generated
         | Some dat \<Rightarrow>
             (case referralCode dat of
                None \<Rightarrow> generated
              | Some c \<Rightarrow> if c \<noteq> [] then (Response 200 (ReferralCodeOf c), []) else generated))"

definition generateReferral :: "env \<Rightarrow> uid \<Rightarrow> db \<Rightarrow> response \<times> db" where
  "generateReferral e u d =
     (case generateReferral_writes e u d of (r, ws) \<Rightarrow> (r, db_update ws d))"

section \<open>GET /admin/referrals\<close>

text \<open>
  \<^verbatim>\<open>orderByChild('createdAt')\<close> orders the children by the child's value and, among
  equal values, by key. \<^verbatim>\<open>limitToLast(n)\<close> keeps the last \<open>n\<close> of them.
\<close>

definition orderByChild_createdAt :: "(string \<times> referral) list \<Rightarrow> (string \<times> referral) list" where
  "orderByChild_createdAt xs = sort_key (\<lambda>(k, r). (createdAt r, k)) xs"

definition limitToLast :: "nat \<Rightarrow> 'a list \<Rightarrow> 'a list" where
  "limitToLast n xs = drop (length xs - n) xs"

text \<open>
  \<^verbatim>\<open>snap.val()\<close> is an object with one property per child of the snapshot. The
  object is built in key order, whatever the order of the query was; record ids are
  uuids, which the store compares as strings.
\<close>

definition snapshot_val :: "(string \<times> 'a) list \<Rightarrow> (string \<times> 'a) list" where
  "snapshot_val children = sort_key fst children"

text \<open>
  The query parameter is \<open>None\<close> when absent and \<open>Some n\<close> when it is the numeral of
  \<open>n\<close> (a non-empty string, so \<^verbatim>\<open>req.query.limit || 100\<close> keeps it, also for
  \<open>0\<close>). \<^verbatim>\<open>limitToLast\<close> throws unless its argument is a positive integer, which the
  handler's \<^verbatim>\<open>catch\<close> answers with status 500. \<open>Data\<close> lists the properties of the
  object the handler sends, in the object's order.
\<close>

definition adminReferrals :: "int option \<Rightarrow> db \<Rightarrow> response" where
  "adminReferrals queryLimit d =
     (let limit = min 200 (case queryLimit of None \<Rightarrow> 100 | Some n \<Rightarrow> n)
      in if limit \<le> 0 then Response 500 (Error ''Internal error'')
         else Response 200
                (Data (snapshot_val (limitToLast (nat limit)
                         (orderByChild_createdAt (referrals d))))))"

section \<open>POST /admin/settings/referral\<close>

definition noSettings :: settings where
  "noSettings = \<lparr>referrerCoins = None, referredCoins = None, requireCompleteProfile = None\<rparr>"

text \<open>
  The body is a record of the three optional fields at their documented types, on
  which \<^verbatim>\<open>Number\<close> and \<^verbatim>\<open>!!\<close> are the identity. The handler copies the fields that
  are defined into \<^verbatim>\<open>updates\<close>, passes it to \<^verbatim>\<open>update\<close> on the settings node, and
  answers with \<^verbatim>\<open>{ success: true, saved: updates }\<close>.
\<close>

definition settings_writes :: "settings \<Rightarrow> path_write list" where
  "settings_writes updates =
     (case referrerCoins updates of None \<Rightarrow> [] | Some n \<Rightarrow> [SetReferrerCoins n]) @
     (case referredCoins updates of None \<Rightarrow> [] | Some n \<Rightarrow> [SetReferredCoins n]) @
     (case requireCompleteProfile updates of None \<Rightarrow> [] | Some b \<Rightarrow> [SetRequireCompleteProfile b])"

definition adminSettings :: "settings \<Rightarrow> db \<Rightarrow> response \<times> db" where
  "adminSettings reqBody d =
     (let u1 = (case referrerCoins reqBody of
                  None \<Rightarrow> noSettings | Some n \<Rightarrow> noSettings\<lparr>referrerCoins := Some n\<rparr>);
          u2 = (case referredCoins reqBody of
                  None \<Rightarrow> u1 | Some n \<Rightarrow> u1\<lparr>referredCoins := Some n\<rparr>);
          updates = (case requireCompleteProfile reqBody of
                  None \<Rightarrow> u2 | Some b \<Rightarrow> u2\<lparr>requireCompleteProfile := Some b\<rparr>)
      in (Response 200 (Saved updates), db_update (settings_writes updates) d))"

section \<open>Concrete states\<close>

text \<open>
  A clock value and a record identifier make an environment with no defaults set;
  \<open>redeem u c\<close> is the request of the authenticated user \<open>u\<close> for itself with the
  code \<open>c\<close>. In \<open>db_u1\<close> the user \<open>u1\<close> holds a code and nobody has redeemed; in
  \<open>db_u1_redeemed\<close> the user \<open>u1\<close> has redeemed the code of \<open>u0\<close>;
  in \<open>db_one_redeemed\<close> the user \<open>u2\<close> has redeemed the code of \<open>u1\<close> under the
  default amounts. \<open>db_settings_50_20\<close> has both amounts set, and
  \<open>db_three_referrals\<close> holds three audit records whose key order is not their
  order in time.
\<close>

definition env_at :: "nat \<Rightarrow> string \<Rightarrow> env" where
  "env_at t i = \<lparr>now = t, uuid = i, sha1_hex = (\<lambda>s. ''a1b2c3d4e5f6''),
                 DEFAULT_REFERRER_COINS = None, DEFAULT_REFERRED_COINS = None\<rparr>"

definition redeem :: "uid \<Rightarrow> string \<Rightarrow> applyReq" where
  "redeem u c = \<lparr>newUid = Some u, usedReferralCode = Some c, tokenUid = u\<rparr>"

definition db_u1 :: db where
  "db_u1 = \<lparr>users = [(''u1'', emptyUser\<lparr>referralCode := Some ''U1-A1B2C3''\<rparr>)],
            referrals = [], settingsReferral = noSettings\<rparr>"

definition db_u1_redeemed :: db where
  "db_u1_redeemed =
     \<lparr>users = [(''u0'', emptyUser\<lparr>referralCode := Some ''U0-FFFFFF'', coins := Some 50\<rparr>),
               (''u1'', emptyUser\<lparr>referralCode := Some ''U1-A1B2C3'', coins := Some 20,
                                  referredBy := Some ''U0-FFFFFF'', referralAppliedAt := Some 500\<rparr>)],
      referrals = [(''r0'', \<lparr>referralId = ''r0'', referrerUid = ''u0'', referredUid = ''u1'',
                            referrerCode = ''U0-FFFFFF'', referredCode = Some ''U1-A1B2C3'',
                            awarded = True, referrerCoinsAwarded = 50, referredCoinsAwarded = 20,
                            createdAt = 500\<rparr>)],
      settingsReferral = noSettings\<rparr>"

definition db_settings_50_20 :: db where
  "db_settings_50_20 =
     \<lparr>users = [], referrals = [],
      settingsReferral = \<lparr>referrerCoins = Some 50, referredCoins = Some 20, requireCompleteProfile = None\<rparr>\<rparr>"

definition db_three_referrals :: db where
  "db_three_referrals =
     \<lparr>users = [],
      referrals = [(''ra'', \<lparr>referralId = ''ra'', referrerUid = ''u1'', referredUid = ''u4'',
                            referrerCode = ''U1-A1B2C3'', referredCode = None,
                            awarded = True, referrerCoinsAwarded = 50, referredCoinsAwarded = 20,
                            createdAt = 3000\<rparr>),
                   (''rb'', \<lparr>referralId = ''rb'', referrerUid = ''u1'', referredUid = ''u2'',
                            referrerCode = ''U1-A1B2C3'', referredCode = None,
                            awarded = True, referrerCoinsAwarded = 50, referredCoinsAwarded = 20,
                            createdAt = 1000\<rparr>),
                   (''rc'', \<lparr>referralId = ''rc'', referrerUid = ''u1'', referredUid = ''u3'',
                            referrerCode = ''U1-A1B2C3'', referredCode = None,
                            awarded = True, referrerCoinsAwarded = 50, referredCoinsAwarded = 20,
                            createdAt = 2000\<rparr>)],
      settingsReferral = noSettings\<rparr>"


section \<open>Facts about the store\<close>

lemma map_of_map_at:
  "map_of (map (\<lambda>(k', v). if k' = k then (k', f v) else (k', v)) xs) j =
     (if j = k then map_option f (map_of xs k) else map_of xs j)"
  by (induction xs) auto

lemma map_of_insort_key:
  "k \<notin> set (map fst xs) \<Longrightarrow> map_of (insort_key fst (k, v) xs) = (map_of xs)(k \<mapsto> v)"
  by (induction xs) (auto simp: fun_upd_twist)

lemma map_of_upsert:
  "map_of (upsert k d f xs) = (map_of xs)(k \<mapsto> f (case map_of xs k of None \<Rightarrow> d | Some v \<Rightarrow> v))"
proof (cases "k \<in> set (map fst xs)")
  case True
  then obtain v where v: "map_of xs k = Some v"
    by (metis map_of_eq_None_iff not_Some_eq set_map)
  have "map_of (upsert k d f xs) j = ((map_of xs)(k \<mapsto> f v)) j" for j
    using True v by (simp add: upsert_def map_of_map_at del: set_map)
  with v show ?thesis by auto
next
  case False
  then have "map_of xs k = None" by (simp add: map_of_eq_None_iff)
  with False show ?thesis by (simp add: upsert_def map_of_insort_key del: set_map)
qed

lemma db_update_Nil: "db_update [] d = d"
  by (simp add: db_update_def)

lemma applyReferral_writes_error:
  assumes "applyReferral_writes e req d = (Response st b, ws)" and "st \<noteq> 200"
  shows "ws = [] \<and> st \<in> {400, 404, 409}"
  using assms
  by (auto simp: applyReferral_writes_def applyReferral_validate_def applyReferral_guard_def
        applyReferral_referrer_def applyReferral_updates_def Let_def
      split: sum.splits option.splits if_splits prod.splits)

lemma applyReferral_error_same_tree:
  assumes "applyReferral e req d = (Response st b, d')" and "st \<noteq> 200"
  shows "d' = d"
proof -
  obtain r ws where w: "applyReferral_writes e req d = (r, ws)"
    by (cases "applyReferral_writes e req d")
  with assms(1) have "r = Response st b" and d': "d' = db_update ws d"
    by (simp_all add: applyReferral_def)
  with applyReferral_writes_error[OF _ assms(2)] w have "ws = []" by simp
  with d' show ?thesis by (simp add: db_update_Nil)
qed

lemma findByReferralCode_Some:
  "findByReferralCode us c = Some (r, ru) \<Longrightarrow> (r, ru) \<in> set us \<and> referralCode ru = Some c"
  by (induction us) (auto simp: findByReferralCode_def split: if_splits)

lemma users_after_updates:
  "map_of (users (db_update (fst (applyReferral_updates e n c nu r ru st)) d)) =
     (let m1 = (map_of (users d))(n \<mapsto> (userData d n)
                 \<lparr>referredBy := Some c, referralAppliedAt := Some (now e),
                  coins := Some (or_zero (coins nu) + resolveCoins (referredCoins st) (DEFAULT_REFERRED_COINS e) 20),
                  updatedAt := Some (now e)\<rparr>)
      in m1(r \<mapsto> (case m1 r of None \<Rightarrow> emptyUser | Some v \<Rightarrow> v)
                 \<lparr>coins := Some (or_zero (coins ru) + resolveCoins (referrerCoins st) (DEFAULT_REFERRER_COINS e) 50),
                  updatedAt := Some (now e)\<rparr>))"
  by (simp add: applyReferral_updates_def db_update_def map_of_upsert userData_def Let_def
        split: option.splits)


lemma settings_after_updates:
  "settingsReferral (db_update (fst (applyReferral_updates e n c nu r ru st)) d) = settingsReferral d"
  by (simp add: applyReferral_updates_def db_update_def Let_def)

lemma applyReferral_success:
  assumes "applyReferral e req d = (Response 200 b, d')"
  obtains n c r ru where
    "newUid req = Some n" "tokenUid req = n" "n \<noteq> []" "usedReferralCode req = Some c" "c \<noteq> []"
    "\<not> truthy_num (referralAppliedAt (userData d n))"
    "findByReferralCode (users d) c = Some (r, ru)" "r \<noteq> n"
    "b = Awarded r (resolveCoins (referrerCoins (settingsReferral d)) (DEFAULT_REFERRER_COINS e) 50)
                   (resolveCoins (referredCoins (settingsReferral d)) (DEFAULT_REFERRED_COINS e) 20)"
    "d' = db_update (fst (applyReferral_updates e n c (userData d n) r ru (settingsReferral d))) d"
  using assms
  by (auto simp: applyReferral_def applyReferral_writes_def applyReferral_validate_def
        applyReferral_guard_def applyReferral_referrer_def Let_def
        split: sum.splits option.splits if_splits prod.splits)
     (auto simp: applyReferral_updates_def Let_def)

lemmas applyReferral_defs =
  applyReferral_def applyReferral_writes_def applyReferral_validate_def applyReferral_guard_def
  applyReferral_referrer_def applyReferral_updates_def applyReferral_start_def
  findByReferralCode_def userData_def resolveCoins_def truthy_num_def truthy_str_def or_zero_def
  db_update_def upsert_def emptyUser_def noSettings_def Let_def

lemmas example_defs = env_at_def redeem_def db_u1_def db_u1_redeemed_def

section \<open>Overlapping redemptions\<close>

text \<open>
  When a single request runs its four I/O steps with nothing in between, the result
  is that of \<open>applyReferral\<close>: the step function and the handler are the same code.
\<close>

lemma applyReferral_steps_alone:
  "interleave [0, 0, 0, 0] [(e, applyReferral_start req)] d =
     ([(e, Done (fst (applyReferral e req d)))], snd (applyReferral e req d))"
  by (auto simp: applyReferral_start_def applyReferral_def applyReferral_writes_def db_update_Nil
        Let_def split: sum.splits option.splits prod.splits)

text \<open>
  Only the commit step changes the tree, and the response a request commits with is
  the success response: a request that ends in an error has written nothing, also
  when other requests run between its steps.
\<close>

lemma applyReferral_step_writes_at_commit:
  "applyReferral_step e p d = (p', d') \<Longrightarrow> d' = d \<or> (\<exists>ws r. p = Commit ws r)"
  by (cases p) (auto simp: Let_def split: option.splits sum.splits prod.splits)

lemma applyReferral_step_commits_success:
  "applyReferral_step e p d = (Commit ws r, d') \<Longrightarrow> status r = 200"
  by (cases p)
     (auto simp: applyReferral_updates_def Let_def split: option.splits sum.splits prod.splits)

text \<open>
  A second call that starts after a successful redemption has committed (at a clock
  value other than 0) is answered 409 and writes nothing.
\<close>

lemma applyReferral_second_call_409:
  assumes "applyReferral e1 req1 d = (Response 200 b, d1)" and "now e1 \<noteq> 0"
      and "newUid req2 = newUid req1" and "tokenUid req2 = tokenUid req1"
      and "truthy_str (usedReferralCode req2)"
  shows "applyReferral e2 req2 d1 = (Response 409 (Error ''Referral already applied''), d1)
       \<and> snd (applyReferral_writes e2 req2 d1) = []"
proof -
  from assms(1) obtain n c r ru where s:
    "newUid req1 = Some n" "tokenUid req1 = n" "n \<noteq> []" "r \<noteq> n"
    "d1 = db_update (fst (applyReferral_updates e1 n c (userData d n) r ru (settingsReferral d))) d"
    by (rule applyReferral_success)
  have "referralAppliedAt (userData d1 n) = Some (now e1)"
    using s(4) unfolding s(5) userData_def users_after_updates by (simp add: Let_def)
  then have g: "applyReferral_guard (userData d1 n) =
      Some (Response 409 (Error ''Referral already applied''))"
    using assms(2) by (simp add: applyReferral_guard_def truthy_num_def)
  obtain c2 where c2: "usedReferralCode req2 = Some c2" "c2 \<noteq> []"
    using assms(5) by (auto simp: truthy_str_def split: option.splits)
  have "applyReferral_validate req2 = Inr (n, c2)"
    using assms(3,4) s(1,2,3) c2 by (simp add: applyReferral_validate_def)
  with g show ?thesis
    by (simp add: applyReferral_def applyReferral_writes_def db_update_Nil)
qed

text \<open>
  Over any number of calls served one after the other, at clock values other than 0,
  at most one call for an account is answered 200: a success sets
  \<open>referralAppliedAt\<close>, no later call unsets it, and the guard rejects the account
  from then on.
\<close>

lemma redeemed_kept:
  assumes "redeemed d a" and "applyReferral e req d = (r, d1)"
  shows "redeemed d1 a"
proof (cases r)
  case (Response st b)
  show ?thesis
  proof (cases "st = 200")
    case False
    with applyReferral_error_same_tree[of e req d st b d1] assms Response show ?thesis by simp
  next
    case True
    with assms(2) Response have ok: "applyReferral e req d = (Response 200 b, d1)" by simp
    from ok obtain n c r' ru where s:
      "\<not> truthy_num (referralAppliedAt (userData d n))" "r' \<noteq> n"
      "d1 = db_update (fst (applyReferral_updates e n c (userData d n) r' ru (settingsReferral d))) d"
      by (rule applyReferral_success)
    from s(1) assms(1) have "a \<noteq> n" by (auto simp: redeemed_def)
    then have "referralAppliedAt (userData d1 a) = referralAppliedAt (userData d a)"
      using s(2) unfolding s(3) userData_def users_after_updates
      by (simp add: Let_def split: option.splits)
    with assms(1) show ?thesis by (simp add: redeemed_def)
  qed
qed

lemma redeemed_after_success:
  assumes "applyReferral e req d = (Response 200 b, d1)" and "newUid req = Some a" and "now e \<noteq> 0"
  shows "redeemed d1 a"
proof -
  from assms(1) obtain n c r ru where s:
    "newUid req = Some n" "r \<noteq> n"
    "d1 = db_update (fst (applyReferral_updates e n c (userData d n) r ru (settingsReferral d))) d"
    by (rule applyReferral_success)
  from s(1) assms(2) have "n = a" by simp
  then have "referralAppliedAt (userData d1 a) = Some (now e)"
    using s(2) unfolding s(3) userData_def users_after_updates by (simp add: Let_def)
  with assms(3) show ?thesis by (simp add: redeemed_def truthy_num_def)
qed

lemma redeemed_no_success:
  assumes "redeemed d a" and "newUid req = Some a"
  shows "status (fst (applyReferral e req d)) \<noteq> 200"
  using assms
  by (auto simp: redeemed_def applyReferral_def applyReferral_writes_def applyReferral_validate_def
        applyReferral_guard_def Let_def split: option.splits)

lemma applyReferral_all_Cons:
  "applyReferral e req d = (r, d1) \<Longrightarrow>
     fst (applyReferral_all ((e, req) # calls) d) = r # fst (applyReferral_all calls d1)"
  by (simp split: prod.splits)

lemma successes_for_redeemed:
  "redeemed d a \<Longrightarrow> successes_for a calls (fst (applyReferral_all calls d)) = 0"
proof (induction calls arbitrary: d)
  case Nil
  then show ?case by simp
next
  case (Cons call calls)
  obtain e req where call: "call = (e, req)" by (cases call)
  obtain r d1 where run: "applyReferral e req d = (r, d1)" by (cases "applyReferral e req d")
  from redeemed_kept[OF Cons.prems run] have "redeemed d1 a" .
  from Cons.IH[OF this] have ih: "successes_for a calls (fst (applyReferral_all calls d1)) = 0" .
  have "newUid req = Some a \<Longrightarrow> status r \<noteq> 200"
    using redeemed_no_success[OF Cons.prems, of req e] run by simp
  with ih show ?case
    by (auto simp: call applyReferral_all_Cons[OF run] simp del: applyReferral_all.simps)
qed

lemma applyReferral_sequential_once:
  assumes "\<forall>call \<in> set calls. now (fst call) \<noteq> 0"
  shows "successes_for a calls (fst (applyReferral_all calls d)) \<le> 1"
  using assms
proof (induction calls arbitrary: d)
  case Nil
  then show ?case by simp
next
  case (Cons call calls)
  obtain e req where call: "call = (e, req)" by (cases call)
  obtain r d1 where run: "applyReferral e req d = (r, d1)" by (cases "applyReferral e req d")
  from Cons.prems have nz: "now e \<noteq> 0" and rest: "\<forall>call \<in> set calls. now (fst call) \<noteq> 0"
    by (simp_all add: call)
  show ?case
  proof (cases "newUid req = Some a \<and> status r = 200")
    case False
    with Cons.IH[OF rest, of d1] show ?thesis
      by (auto simp: call applyReferral_all_Cons[OF run] simp del: applyReferral_all.simps)
  next
    case True
    then obtain b where "r = Response 200 b" by (cases r) simp
    with run have "applyReferral e req d = (Response 200 b, d1)" by simp
    from redeemed_after_success[OF this _ nz] True have "redeemed d1 a" by simp
    from successes_for_redeemed[OF this] True show ?thesis
      by (simp add: call applyReferral_all_Cons[OF run] del: applyReferral_all.simps)
  qed
qed

lemmas interleave_eval =
  applyReferral_start_def applyReferral_validate_def applyReferral_guard_def
  applyReferral_referrer_def applyReferral_updates_def
  findByReferralCode_def userData_def resolveCoins_def truthy_num_def truthy_str_def or_zero_def
  db_update_def upsert_def emptyUser_def noSettings_def Let_def
  env_at_def redeem_def db_u1_def

text \<open>
  C1: the claim allows one audit record per redeeming account over any number of
  calls, with the guard checked against the state just before the commit. The
  handler reads \<open>referralAppliedAt\<close> at its first \<^verbatim>\<open>await\<close> and commits three
  \<^verbatim>\<open>await\<close>s later without reading it again. Here \<open>u2\<close> sends the request twice and
  the two requests alternate: both pass the guard, both are answered 200, and the
  tree ends with two audit records whose \<open>referredUid\<close> is \<open>u2\<close>.
\<close>

theorem applyReferral_overlapping_double_award:
  "map snd (fst (interleave [0, 1, 0, 1, 0, 1, 0, 1]
       [(env_at 1000 ''r1'', applyReferral_start (redeem ''u2'' ''U1-A1B2C3'')),
        (env_at 2000 ''r2'', applyReferral_start (redeem ''u2'' ''U1-A1B2C3''))] db_u1)) =
     [Done (Response 200 (Awarded ''u1'' 50 20)), Done (Response 200 (Awarded ''u1'' 50 20))]
   \<and> map (\<lambda>(k, r). (k, referredUid r))
        (referrals (snd (interleave [0, 1, 0, 1, 0, 1, 0, 1]
       [(env_at 1000 ''r1'', applyReferral_start (redeem ''u2'' ''U1-A1B2C3'')),
        (env_at 2000 ''r2'', applyReferral_start (redeem ''u2'' ''U1-A1B2C3''))] db_u1))) =
     [(''r1'', ''u2''), (''r2'', ''u2'')]"
  by (simp add: interleave_eval)

text \<open>
  C2: the claim has the referrer gain the award once per successful redemption. The
  handler writes \<open>coins\<close> of the referrer as the balance it read from the query
  snapshot plus the award. Here \<open>u2\<close> and \<open>u3\<close> redeem the code of \<open>u1\<close>, whose
  balance is unset, and the two requests alternate: both are answered 200 with a
  referrer award of 50, and \<open>u1\<close> ends with 50 coins; run one after the other the
  same two requests leave 100.
\<close>

theorem applyReferral_overlapping_lost_update:
  "map snd (fst (interleave [0, 1, 0, 1, 0, 1, 0, 1]
       [(env_at 1000 ''r1'', applyReferral_start (redeem ''u2'' ''U1-A1B2C3'')),
        (env_at 2000 ''r2'', applyReferral_start (redeem ''u3'' ''U1-A1B2C3''))] db_u1)) =
     [Done (Response 200 (Awarded ''u1'' 50 20)), Done (Response 200 (Awarded ''u1'' 50 20))]
   \<and> coins (userData db_u1 ''u1'') = None
   \<and> coins (userData (snd (interleave [0, 1, 0, 1, 0, 1, 0, 1]
       [(env_at 1000 ''r1'', applyReferral_start (redeem ''u2'' ''U1-A1B2C3'')),
        (env_at 2000 ''r2'', applyReferral_start (redeem ''u3'' ''U1-A1B2C3''))] db_u1)) ''u1'') = Some 50
   \<and> coins (userData (snd (interleave [0, 0, 0, 0, 1, 1, 1, 1]
       [(env_at 1000 ''r1'', applyReferral_start (redeem ''u2'' ''U1-A1B2C3'')),
        (env_at 2000 ''r2'', applyReferral_start (redeem ''u3'' ''U1-A1B2C3''))] db_u1)) ''u1'') = Some 100"
  by (simp add: interleave_eval)

section \<open>Validation errors of the redemption\<close>

text \<open>
  C3: a request to \<^verbatim>\<open>/applyReferral\<close> that ends in a validation error (any status
  other than 200: 400, 404 or 409) has passed no write to the database, and the tree
  is the one it started from.
\<close>

theorem applyReferral_error_no_mutation:
  assumes "applyReferral e req d = (Response st b, d')" and "st \<noteq> 200"
  shows "d' = d \<and> snd (applyReferral_writes e req d) = [] \<and> st \<in> {400, 404, 409}"
proof -
  obtain r ws where w: "applyReferral_writes e req d = (r, ws)"
    by (cases "applyReferral_writes e req d")
  with assms(1) have r: "r = Response st b" and d': "d' = db_update ws d"
    by (simp_all add: applyReferral_def)
  from applyReferral_writes_error[OF w[unfolded r] assms(2)] have "ws = []" "st \<in> {400, 404, 409}"
    by simp_all
  with d' w show ?thesis by (simp add: db_update_Nil)
qed

text \<open>The unknown code \<^verbatim>\<open>NOPE-000000\<close>: status 404, no write, the same tree.\<close>

theorem applyReferral_error_no_mutation_witness:
  "applyReferral (env_at 1000 ''r1'') (redeem ''u2'' ''NOPE-000000'') db_u1 =
     (Response 404 (Error ''Referral code not found''), db_u1)
   \<and> snd (applyReferral_writes (env_at 1000 ''r1'') (redeem ''u2'' ''NOPE-000000'') db_u1) = []"
proof -
  have run: "applyReferral (env_at 1000 ''r1'') (redeem ''u2'' ''NOPE-000000'') db_u1 =
     (Response 404 (Error ''Referral code not found''), db_u1)"
    by (simp add: applyReferral_defs example_defs)
  from applyReferral_error_no_mutation[OF run] run show ?thesis by simp
qed


text \<open>
  C4, as amended: when the body's \<open>newUid\<close> is not the uid of the token, the request
  is answered with status 400 and the error \<^verbatim>\<open>Bad newUid\<close>, whatever the code and the
  database are (it is the first check, made before any read), and nothing is written.
\<close>

theorem applyReferral_mismatch_400:
  assumes "newUid req \<noteq> Some (tokenUid req)"
  shows "applyReferral e req d = (Response 400 (Error ''Bad newUid''), d)
       \<and> applyReferral_writes e req d = (Response 400 (Error ''Bad newUid''), [])
       \<and> applyReferral_start req = Done (Response 400 (Error ''Bad newUid''))"
  using assms
  by (auto simp: applyReferral_def applyReferral_writes_def applyReferral_start_def
        applyReferral_validate_def db_update_Nil split: option.splits)

text \<open>C4 as stated fails: the status of an identity mismatch is not 403.\<close>

theorem applyReferral_mismatch_not_403:
  "status (fst (applyReferral (env_at 1000 ''r1'')
      \<lparr>newUid = Some ''u2'', usedReferralCode = Some ''U1-A1B2C3'', tokenUid = ''u3''\<rparr> db_u1)) \<noteq> 403"
  by (simp add: applyReferral_defs example_defs)

theorem applyReferral_mismatch_400_witness:
  "applyReferral (env_at 1000 ''r1'')
      \<lparr>newUid = Some ''u2'', usedReferralCode = Some ''U1-A1B2C3'', tokenUid = ''u3''\<rparr> db_u1 =
     (Response 400 (Error ''Bad newUid''), db_u1)"
  using applyReferral_mismatch_400[of "\<lparr>newUid = Some ''u2'', usedReferralCode = Some ''U1-A1B2C3'', tokenUid = ''u3''\<rparr>"
      "env_at 1000 ''r1''" db_u1]
  by simp


text \<open>
  C5, as amended: when the code resolves to the requester itself, the redemption
  always fails and writes nothing; the error is \<^verbatim>\<open>Cannot use your own code\<close> (400)
  when the requester has no \<open>referralAppliedAt\<close>, and \<^verbatim>\<open>Referral already applied\<close>
  (409) when it has, since that check comes first.
\<close>

theorem applyReferral_own_code:
  assumes "a \<noteq> []" and "c \<noteq> []" and "findByReferralCode (users d) c = Some (a, u)"
  shows "applyReferral e \<lparr>newUid = Some a, usedReferralCode = Some c, tokenUid = a\<rparr> d =
           (if truthy_num (referralAppliedAt (userData d a))
            then Response 409 (Error ''Referral already applied'')
            else Response 400 (Error ''Cannot use your own code''), d)
       \<and> snd (applyReferral_writes e \<lparr>newUid = Some a, usedReferralCode = Some c, tokenUid = a\<rparr> d) = []"
  using assms
  by (simp add: applyReferral_def applyReferral_writes_def applyReferral_validate_def
        applyReferral_guard_def applyReferral_referrer_def db_update_Nil Let_def)

text \<open>
  C5 as stated fails: \<open>u1\<close> has redeemed the code of \<open>u0\<close> and now sends its own
  code, which resolves to \<open>u1\<close>; the answer is 409, not the self-referral error.
\<close>

theorem applyReferral_own_code_after_redeeming:
  "findByReferralCode (users db_u1_redeemed) ''U1-A1B2C3'' =
     Some (''u1'', emptyUser\<lparr>referralCode := Some ''U1-A1B2C3'', coins := Some 20,
                            referredBy := Some ''U0-FFFFFF'', referralAppliedAt := Some 500\<rparr>)
   \<and> fst (applyReferral (env_at 1000 ''r1'') (redeem ''u1'' ''U1-A1B2C3'') db_u1_redeemed) =
       Response 409 (Error ''Referral already applied'')
   \<and> fst (applyReferral (env_at 1000 ''r1'') (redeem ''u1'' ''U1-A1B2C3'') db_u1_redeemed) \<noteq>
       Response 400 (Error ''Cannot use your own code'')"
  by (simp add: applyReferral_defs example_defs)

theorem applyReferral_own_code_witness:
  "applyReferral (env_at 1000 ''r1'') (redeem ''u1'' ''U1-A1B2C3'') db_u1 =
     (Response 400 (Error ''Cannot use your own code''), db_u1)
   \<and> applyReferral (env_at 1000 ''r1'') (redeem ''u1'' ''U1-A1B2C3'') db_u1_redeemed =
     (Response 409 (Error ''Referral already applied''), db_u1_redeemed)"
proof -
  have f1: "findByReferralCode (users db_u1) ''U1-A1B2C3'' =
              Some (''u1'', emptyUser\<lparr>referralCode := Some ''U1-A1B2C3''\<rparr>)"
    by (simp add: findByReferralCode_def db_u1_def)
  have f2: "findByReferralCode (users db_u1_redeemed) ''U1-A1B2C3'' =
     Some (''u1'', emptyUser\<lparr>referralCode := Some ''U1-A1B2C3'', coins := Some 20,
                            referredBy := Some ''U0-FFFFFF'', referralAppliedAt := Some 500\<rparr>)"
    by (simp add: findByReferralCode_def db_u1_redeemed_def emptyUser_def)
  have g1: "\<not> truthy_num (referralAppliedAt (userData db_u1 ''u1''))"
    by (simp add: userData_def db_u1_def truthy_num_def emptyUser_def)
  have g2: "truthy_num (referralAppliedAt (userData db_u1_redeemed ''u1''))"
    by (simp add: userData_def db_u1_redeemed_def truthy_num_def emptyUser_def)
  from applyReferral_own_code[OF _ _ f1, of "env_at 1000 ''r1''"]
       applyReferral_own_code[OF _ _ f2, of "env_at 1000 ''r1''"] g1 g2
  show ?thesis by (simp add: redeem_def)
qed


section \<open>Award amounts\<close>







section \<open>Code generation\<close>

lemma makeReferralCode_nonempty: "makeReferralCode e u \<noteq> []"
  by (simp add: makeReferralCode_def)

lemma generateReferral_persisted:
  assumes "map_of (users d) u = Some dat" and "referralCode dat = Some c" and "c \<noteq> []"
  shows "generateReferral_writes e u d = (Response 200 (ReferralCodeOf c), [])"
  using assms by (simp add: generateReferral_writes_def Let_def)

lemma generateReferral_fresh:
  assumes "\<not> truthy_str (referralCode (userData d u))"
  shows "generateReferral_writes e u d =
           (Response 200 (ReferralCodeOf (makeReferralCode e u)),
            [SetReferralCode u (makeReferralCode e u), SetUpdatedAt u (now e)])"
  using assms
  by (auto simp: generateReferral_writes_def userData_def truthy_str_def emptyUser_def Let_def
      split: option.splits)

lemma referralCode_after_generate:
  "map_of (users (db_update [SetReferralCode u c, SetUpdatedAt u t] d)) u =
     Some ((userData d u)\<lparr>referralCode := Some c, updatedAt := Some t\<rparr>)"
  by (simp add: db_update_def map_of_upsert userData_def split: option.splits)

text \<open>
  C7: two calls of \<^verbatim>\<open>/generateReferral\<close> for the same user, one after the other,
  return the same code, and the second call passes no write to the database and
  leaves the tree as the first call left it. When a non-empty code is stored the
  first call returns it and writes nothing either; otherwise it returns the code it
  generates, and that code is then the stored one.
\<close>

theorem generateReferral_idempotent:
  "generateReferral e2 u (snd (generateReferral e1 u d)) =
     (fst (generateReferral e1 u d), snd (generateReferral e1 u d))
   \<and> snd (generateReferral_writes e2 u (snd (generateReferral e1 u d))) = []
   \<and> (if truthy_str (referralCode (userData d u))
      then generateReferral e1 u d = (Response 200 (ReferralCodeOf (case referralCode (userData d u) of Some c \<Rightarrow> c | None \<Rightarrow> [])), d)
         \<and> snd (generateReferral_writes e1 u d) = []
      else fst (generateReferral e1 u d) = Response 200 (ReferralCodeOf (makeReferralCode e1 u))
         \<and> referralCode (userData (snd (generateReferral e1 u d)) u) = Some (makeReferralCode e1 u))"
proof (cases "truthy_str (referralCode (userData d u))")
  case True
  then obtain dat c where dat: "map_of (users d) u = Some dat" "referralCode dat = Some c" "c \<noteq> []"
    by (auto simp: truthy_str_def userData_def emptyUser_def split: option.splits)
  have w: "generateReferral_writes e u d = (Response 200 (ReferralCodeOf c), [])" for e
    using dat by (rule generateReferral_persisted)
  have g: "generateReferral e u d = (Response 200 (ReferralCodeOf c), d)" for e
    by (simp add: generateReferral_def w db_update_Nil)
  have "referralCode (userData d u) = Some c" using dat by (simp add: userData_def)
  with True g w show ?thesis by simp
next
  case False
  let ?c = "makeReferralCode e1 u"
  let ?d1 = "db_update [SetReferralCode u ?c, SetUpdatedAt u (now e1)] d"
  have g1: "generateReferral e1 u d = (Response 200 (ReferralCodeOf ?c), ?d1)"
    by (simp add: generateReferral_def generateReferral_fresh[OF False])
  have m: "map_of (users ?d1) u = Some ((userData d u)\<lparr>referralCode := Some ?c, updatedAt := Some (now e1)\<rparr>)"
    by (rule referralCode_after_generate)
  have w2: "generateReferral_writes e2 u ?d1 = (Response 200 (ReferralCodeOf ?c), [])"
    by (rule generateReferral_persisted[OF m]) (simp_all add: makeReferralCode_nonempty)
  have g2: "generateReferral e2 u ?d1 = (Response 200 (ReferralCodeOf ?c), ?d1)"
    by (simp add: generateReferral_def w2 db_update_Nil)
  have "referralCode (userData ?d1 u) = Some ?c"
    using m by (simp add: userData_def)
  with False g1 g2 w2 show ?thesis by simp
qed

theorem generateReferral_idempotent_witness:
  "generateReferral (env_at 1000 ''r1'') ''u2x'' db_u1 =
     (Response 200 (ReferralCodeOf ''U2X-A1B2C3''),
      db_update [SetReferralCode ''u2x'' ''U2X-A1B2C3'', SetUpdatedAt ''u2x'' 1000] db_u1)
   \<and> generateReferral (env_at 2000 ''r2'') ''u2x'' (snd (generateReferral (env_at 1000 ''r1'') ''u2x'' db_u1)) =
     (Response 200 (ReferralCodeOf ''U2X-A1B2C3''),
      db_update [SetReferralCode ''u2x'' ''U2X-A1B2C3'', SetUpdatedAt ''u2x'' 1000] db_u1)"
proof -
  have c: "makeReferralCode (env_at 1000 ''r1'') ''u2x'' = ''U2X-A1B2C3''"
    by code_simp
  have g: "generateReferral (env_at 1000 ''r1'') ''u2x'' db_u1 =
     (Response 200 (ReferralCodeOf ''U2X-A1B2C3''),
      db_update [SetReferralCode ''u2x'' ''U2X-A1B2C3'', SetUpdatedAt ''u2x'' 1000] db_u1)"
    by (simp add: generateReferral_def generateReferral_writes_def c Let_def db_u1_def)
       (simp add: env_at_def)
  from generateReferral_idempotent[of "env_at 2000 ''r2''" "''u2x''" "env_at 1000 ''r1''" db_u1] g
  show ?thesis by simp
qed

section \<open>Listing the audit records\<close>

lemma sorted_drop_bounds:
  assumes "sorted (map f xs)"
  shows "\<forall>x \<in> set (take k xs). \<forall>y \<in> set (drop k xs). f x \<le> f y"
proof -
  have "sorted (map f (take k xs) @ map f (drop k xs))"
    using assms by (simp flip: map_append)
  then show ?thesis by (auto simp: sorted_append)
qed

lemma limitToLast_window:
  assumes "sorted (map f xs)"
  shows "length (limitToLast n xs) = min (length xs) n
       \<and> mset (limitToLast n xs) \<subseteq># mset xs
       \<and> (\<forall>x \<in># mset xs - mset (limitToLast n xs). \<forall>y \<in> set (limitToLast n xs). f x \<le> f y)"
proof -
  let ?k = "length xs - n"
  have split: "mset xs = mset (take ?k xs) + mset (drop ?k xs)"
    by (metis append_take_drop_id mset_append)
  then have rest: "mset xs - mset (drop ?k xs) = mset (take ?k xs)" by simp
  have sub: "mset (drop ?k xs) \<subseteq># mset xs" using split by simp
  from sorted_drop_bounds[OF assms, of ?k] rest sub show ?thesis
    by (simp add: limitToLast_def)
qed

lemma snapshot_val_keys:
  "sorted (map fst (snapshot_val xs)) \<and> mset (snapshot_val xs) = mset xs
   \<and> length (snapshot_val xs) = length xs \<and> set (snapshot_val xs) = set xs"
  by (simp add: snapshot_val_def)

text \<open>
  C8, as amended: for a positive limit (100 when the parameter is absent) the
  listing answers 200 with \<open>min limit 200\<close> audit records, or all of them when there
  are fewer: at most 200, each stored record at most as often as it is stored, every
  stored record left out no newer than any record listed, and the records in key
  order. A limit that is not positive is answered with status 500.
\<close>

theorem adminReferrals_window:
  "(if 0 < (case queryLimit of None \<Rightarrow> 100 | Some n \<Rightarrow> n)
    then \<exists>entries.
           adminReferrals queryLimit d = Response 200 (Data entries)
         \<and> length entries =
             min (length (referrals d)) (nat (min 200 (case queryLimit of None \<Rightarrow> 100 | Some n \<Rightarrow> n)))
         \<and> length entries \<le> 200
         \<and> sorted (map fst entries)
         \<and> mset entries \<subseteq># mset (referrals d)
         \<and> (\<forall>x \<in># mset (referrals d) - mset entries. \<forall>y \<in> set entries.
               createdAt (snd x) \<le> createdAt (snd y))
    else adminReferrals queryLimit d = Response 500 (Error ''Internal error''))"
proof (cases "0 < (case queryLimit of None \<Rightarrow> 100 | Some n \<Rightarrow> n)")
  case False
  then show ?thesis by (simp add: adminReferrals_def Let_def)
next
  case True
  let ?lim = "min 200 (case queryLimit of None \<Rightarrow> 100 | Some n \<Rightarrow> n)"
  let ?f = "\<lambda>(k, r). (createdAt r :: nat, k :: string)"
  let ?xs = "orderByChild_createdAt (referrals d)"
  let ?w = "limitToLast (nat ?lim) ?xs"
  let ?es = "snapshot_val ?w"
  have pos: "0 < ?lim" using True by simp
  have resp: "adminReferrals queryLimit d = Response 200 (Data ?es)"
    using pos by (simp add: adminReferrals_def Let_def)
  have srt: "sorted (map ?f ?xs)" and ms: "mset ?xs = mset (referrals d)"
    and len: "length ?xs = length (referrals d)"
    by (simp_all add: orderByChild_createdAt_def)
  from limitToLast_window[OF srt, of "nat ?lim"]
  have w: "length ?w = min (length (referrals d)) (nat ?lim)"
     "mset ?w \<subseteq># mset (referrals d)"
     "\<forall>x \<in># mset (referrals d) - mset ?w. \<forall>y \<in> set ?w. ?f x \<le> ?f y"
    by (simp_all add: ms len)
  note v = snapshot_val_keys[of ?w]
  have l: "length ?es = min (length (referrals d)) (nat ?lim)" using w(1) v by simp
  then have l200: "length ?es \<le> 200" by simp
  have sub: "mset ?es \<subseteq># mset (referrals d)" using w(2) v by simp
  have newer: "\<forall>x \<in># mset (referrals d) - mset ?es. \<forall>y \<in> set ?es.
      createdAt (snd x) \<le> createdAt (snd y)"
  proof (intro ballI)
    fix x y
    assume "x \<in># mset (referrals d) - mset ?es" and "y \<in> set ?es"
    with w(3) v have "?f x \<le> ?f y" by simp
    then show "createdAt (snd x) \<le> createdAt (snd y)"
      by (auto simp: case_prod_beta less_eq_prod_def)
  qed
  from True resp l l200 v sub newer show ?thesis by auto
qed

text \<open>
  C8 as stated fails: with three records and no limit the listing is \<open>ra\<close>, \<open>rb\<close>,
  \<open>rc\<close>, created at 3000, 1000 and 2000, which is not most recent first.
\<close>

theorem adminReferrals_not_most_recent_first:
  "adminReferrals None db_three_referrals = Response 200 (Data (referrals db_three_referrals))
   \<and> map (\<lambda>(k, r). (k, createdAt r)) (referrals db_three_referrals) =
       [(''ra'', 3000), (''rb'', 1000), (''rc'', 2000)]
   \<and> \<not> sorted_wrt (\<lambda>x y. createdAt (snd x) \<ge> createdAt (snd y)) (referrals db_three_referrals)"
  by (simp add: adminReferrals_def orderByChild_createdAt_def limitToLast_def snapshot_val_def
        db_three_referrals_def Let_def)

text \<open>
  With limit 2 the record \<open>rb\<close>, the oldest, is left out, and the two others come in
  key order; with limit 0 the answer is 500.
\<close>

theorem adminReferrals_window_witness:
  "adminReferrals (Some 2) db_three_referrals =
     Response 200 (Data [referrals db_three_referrals ! 0, referrals db_three_referrals ! 2])
   \<and> adminReferrals (Some 0) db_three_referrals = Response 500 (Error ''Internal error'')"
proof -
  have a: "adminReferrals (Some 2) db_three_referrals =
     Response 200 (Data [referrals db_three_referrals ! 0, referrals db_three_referrals ! 2])"
    by (simp add: adminReferrals_def orderByChild_createdAt_def limitToLast_def snapshot_val_def
          db_three_referrals_def Let_def)
  from adminReferrals_window[of "Some 0" db_three_referrals]
       adminReferrals_window[of "Some 2" db_three_referrals] a
  show ?thesis by simp
qed

section \<open>Updating the settings\<close>

text \<open>
  C9, as amended: the settings route stores each field the body provides, leaves
  the stored value of every field it does not provide and the rest of the tree
  untouched, and answers with \<^verbatim>\<open>saved\<close> holding the fields of the body only.
\<close>

theorem adminSettings_merges:
  "adminSettings reqBody d =
     (Response 200 (Saved reqBody),
      d\<lparr>settingsReferral :=
          \<lparr>referrerCoins = (case referrerCoins reqBody of
                               None \<Rightarrow> referrerCoins (settingsReferral d) | Some n \<Rightarrow> Some n),
           referredCoins = (case referredCoins reqBody of
                               None \<Rightarrow> referredCoins (settingsReferral d) | Some n \<Rightarrow> Some n),
           requireCompleteProfile = (case requireCompleteProfile reqBody of
                               None \<Rightarrow> requireCompleteProfile (settingsReferral d) | Some b \<Rightarrow> Some b)\<rparr>\<rparr>)"
  by (cases reqBody; cases d; cases "settingsReferral d")
     (simp add: adminSettings_def settings_writes_def noSettings_def db_update_def Let_def
        split: option.splits)

text \<open>
  C9 as stated fails: with 50 and 20 stored, the update \<^verbatim>\<open>{referrerCoins: 10}\<close>
  leaves 10 and 20 stored, and the response holds the 10 alone.
\<close>

theorem adminSettings_saved_not_merged:
  "fst (adminSettings (noSettings\<lparr>referrerCoins := Some 10\<rparr>) db_settings_50_20) =
     Response 200 (Saved \<lparr>referrerCoins = Some 10, referredCoins = None, requireCompleteProfile = None\<rparr>)
   \<and> settingsReferral (snd (adminSettings (noSettings\<lparr>referrerCoins := Some 10\<rparr>) db_settings_50_20)) =
     \<lparr>referrerCoins = Some 10, referredCoins = Some 20, requireCompleteProfile = None\<rparr>
   \<and> fst (adminSettings (noSettings\<lparr>referrerCoins := Some 10\<rparr>) db_settings_50_20) \<noteq>
     Response 200 (Saved (settingsReferral
        (snd (adminSettings (noSettings\<lparr>referrerCoins := Some 10\<rparr>) db_settings_50_20))))"
  by (simp add: adminSettings_def settings_writes_def noSettings_def db_update_def Let_def
        db_settings_50_20_def)

theorem adminSettings_merges_witness:
  "adminSettings (noSettings\<lparr>referrerCoins := Some 10\<rparr>) db_settings_50_20 =
     (Response 200 (Saved \<lparr>referrerCoins = Some 10, referredCoins = None, requireCompleteProfile = None\<rparr>),
      \<lparr>users = [], referrals = [],
       settingsReferral = \<lparr>referrerCoins = Some 10, referredCoins = Some 20, requireCompleteProfile = None\<rparr>\<rparr>)"
  using adminSettings_merges[of "noSettings\<lparr>referrerCoins := Some 10\<rparr>" db_settings_50_20]
  by (simp add: noSettings_def db_settings_50_20_def)

section \<open>A redeeming account with no record\<close>

text \<open>
  C10: when \<^verbatim>\<open>/users/<newUid>\<close> does not exist, the handler reads it as the empty
  object, the already-applied check passes, and a redemption of a code that resolves
  to some user succeeds and creates the record with \<open>coins\<close> equal to the referred
  award (the prior balance counts as 0), \<open>referredBy\<close>, \<open>referralAppliedAt\<close> and
  \<open>updatedAt\<close>.
\<close>

theorem applyReferral_creates_missing_account:
  assumes "map_of (users d) n = None" and "n \<noteq> []" and "c \<noteq> []"
      and "findByReferralCode (users d) c = Some (r, ru)"
  shows "userData d n = emptyUser
       \<and> fst (applyReferral e \<lparr>newUid = Some n, usedReferralCode = Some c, tokenUid = n\<rparr> d) =
           Response 200 (Awarded r
             (resolveCoins (referrerCoins (settingsReferral d)) (DEFAULT_REFERRER_COINS e) 50)
             (resolveCoins (referredCoins (settingsReferral d)) (DEFAULT_REFERRED_COINS e) 20))
       \<and> map_of (users (snd (applyReferral e \<lparr>newUid = Some n, usedReferralCode = Some c, tokenUid = n\<rparr> d))) n =
           Some \<lparr>referralCode = None,
                 coins = Some (resolveCoins (referredCoins (settingsReferral d)) (DEFAULT_REFERRED_COINS e) 20),
                 referredBy = Some c, referralAppliedAt = Some (now e), updatedAt = Some (now e),
                 displayName = None\<rparr>"
proof -
  let ?req = "\<lparr>newUid = Some n, usedReferralCode = Some c, tokenUid = n\<rparr>"
  have empty: "userData d n = emptyUser"
    using assms(1) by (simp add: userData_def)
  from findByReferralCode_Some[OF assms(4)] have "(r, ru) \<in> set (users d)" by simp
  then have "map_of (users d) r \<noteq> None"
    by (metis map_of_eq_None_iff image_eqI fst_conv)
  with assms(1) have rn: "r \<noteq> n" by auto
  have w: "applyReferral_writes e ?req d =
      (snd (applyReferral_updates e n c emptyUser r ru (settingsReferral d)),
       fst (applyReferral_updates e n c emptyUser r ru (settingsReferral d)))"
    using assms rn empty
    by (simp add: applyReferral_writes_def applyReferral_validate_def applyReferral_guard_def
          applyReferral_referrer_def truthy_num_def emptyUser_def split: prod.splits)
  have resp: "snd (applyReferral_updates e n c emptyUser r ru (settingsReferral d)) =
      Response 200 (Awarded r
             (resolveCoins (referrerCoins (settingsReferral d)) (DEFAULT_REFERRER_COINS e) 50)
             (resolveCoins (referredCoins (settingsReferral d)) (DEFAULT_REFERRED_COINS e) 20))"
    by (simp add: applyReferral_updates_def Let_def)
  have "map_of (users (db_update (fst (applyReferral_updates e n c emptyUser r ru (settingsReferral d))) d)) n =
        Some \<lparr>referralCode = None,
                 coins = Some (resolveCoins (referredCoins (settingsReferral d)) (DEFAULT_REFERRED_COINS e) 20),
                 referredBy = Some c, referralAppliedAt = Some (now e), updatedAt = Some (now e),
                 displayName = None\<rparr>"
    using rn empty by (simp add: users_after_updates Let_def) (simp add: emptyUser_def or_zero_def)
  with w resp empty show ?thesis by (simp add: applyReferral_def)
qed

theorem applyReferral_creates_missing_account_witness:
  "map_of (users db_u1) ''u2'' = None
   \<and> fst (applyReferral (env_at 1000 ''r1'') (redeem ''u2'' ''U1-A1B2C3'') db_u1) =
       Response 200 (Awarded ''u1'' 50 20)
   \<and> map_of (users (snd (applyReferral (env_at 1000 ''r1'') (redeem ''u2'' ''U1-A1B2C3'') db_u1))) ''u2'' =
       Some \<lparr>referralCode = None, coins = Some 20, referredBy = Some ''U1-A1B2C3'',
             referralAppliedAt = Some 1000, updatedAt = Some 1000, displayName = None\<rparr>"
proof -
  have a: "map_of (users db_u1) ''u2'' = None" by (simp add: db_u1_def)
  have f: "findByReferralCode (users db_u1) ''U1-A1B2C3'' =
              Some (''u1'', emptyUser\<lparr>referralCode := Some ''U1-A1B2C3''\<rparr>)"
    by (simp add: findByReferralCode_def db_u1_def)
  from applyReferral_creates_missing_account[OF a _ _ f, of "env_at 1000 ''r1''"] a
  show ?thesis by (simp add: redeem_def env_at_def db_u1_def resolveCoins_def noSettings_def)
qed


end
